theory Spec2Isabelle
  imports Main
begin

section \<open>The repository wrapper of aider (aider/repo.py)\<close>

text \<open>
  The class \<open>AiderRepo\<close> coordinates two external services: the version-control
  library (GitPython) and the text-generation client (\<open>send_with_retries\<close>). Neither is
  part of the module, so both are parameters of the model, collected in the record
  \<open>env\<close>. The repository handle has an arbitrary type \<open>'r\<close>.

  An exception is a value of the type \<open>error\<close>. A call of a service returns
  either its result or the exception it raises; an \<open>except\<close> clause of the module
  is a test on that exception, and an exception it does not name leaves the method.

  A Python \<open>str\<close> is a \<open>string\<close>, one \<open>char\<close> standing for one code point (the
  model covers the code points below 256). An argument that may be \<open>None\<close> is a
  \<open>string option\<close>. The calls of \<open>dump\<close> are debugging prints and are left out.

  The methods modelled are \<open>__init__\<close>, \<open>commit\<close>, \<open>get_commit_message\<close>,
  \<open>get_diffs\<close>, \<open>get_tracked_files\<close> and \<open>is_dirty\<close>; the properties below
  do not involve \<open>add_new_files\<close>, \<open>get_rel_repo_dir\<close> and \<open>show_diffs\<close>.
\<close>

subsection \<open>Data\<close>

text \<open>
  The exception classes that the module raises or names, those of the services that
  matter below, and any other one by its name.
\<close>

datatype error =
  FileNotFoundError
  | ValueError
  | InvalidGitRepositoryError
  | NoSuchPathError
  | GitCommandError
  | AttributeError
  | InvalidRequestError
  | IndexError
  | Other_exception string

text \<open>What the object writes through \<open>self.io\<close>.\<close>

datatype notice = Tool_output string | Tool_error string

text \<open>One entry of the list \<open>messages\<close>: \<open>dict(role=..., content=...)\<close>.\<close>

record message =
  role :: string
  content :: string

text \<open>
  A commit object as the module reads it: \<open>hexsha\<close>, and the entries that
  \<open>commit.tree.traverse()\<close> yields, each with its \<open>type\<close> and its \<open>path\<close>.
\<close>

record commit_obj =
  hexsha :: string
  tree_traverse :: "(string \<times> string) list"

text \<open>
  The external collaborators.
  \<^item> \<open>path_resolve\<close>: \<open>Path(fname).resolve()\<close>.
  \<^item> \<open>search_working_dir\<close>: \<open>git.Repo(fname, search_parent_directories=True).working_dir\<close>;
    it raises \<open>InvalidGitRepositoryError\<close> for a path in no repository and
    \<open>NoSuchPathError\<close> for a path that does not exist.
  \<^item> \<open>safe_abs_path\<close>: \<open>utils.safe_abs_path\<close>.
  \<^item> \<open>open_repo\<close>: \<open>git.Repo(path, odbt=git.GitDB)\<close>; \<open>working_tree_dir\<close> reads the handle.
  \<^item> \<open>repo_is_dirty\<close>: \<open>repo.is_dirty()\<close>.
  \<^item> \<open>git_diff\<close>: \<open>repo.git.diff(*args)\<close>, the text of the diff or the exception
    raised (\<open>GitCommandError\<close> for \<open>git diff HEAD\<close> in a repository without commits).
  \<^item> \<open>git_commit\<close>: \<open>repo.git.commit(*args)\<close>, the handle as the command leaves it
    and the exception raised, if any.
  \<^item> \<open>head_commit\<close>: \<open>repo.head.commit\<close>; \<open>None\<close> stands for \<open>ValueError\<close>.
  \<^item> \<open>send_with_retries\<close>: the body of the \<open>try\<close> in \<open>get_commit_message\<close>, the
    request followed by the read of \<open>response.choices[0].message.content\<close>. It gives
    that content (a string or \<open>None\<close>) or the exception raised: by the request
    (\<open>InvalidRequestError\<close> or any other) or by the read (\<open>AttributeError\<close>,
    \<open>IndexError\<close> when there is no choice). It may depend on the requests made so far.
  \<^item> \<open>GPT35_name\<close>, \<open>GPT35_16k_name\<close>, \<open>commit_system\<close>: \<open>models.GPT35.name\<close>,
    \<open>models.GPT35_16k.name\<close>, \<open>prompts.commit_system\<close>.
  \<^item> \<open>os_sep\<close>: the separator of the host's paths.
\<close>

record 'r env =
  path_resolve :: "string \<Rightarrow> string"
  search_working_dir :: "string \<Rightarrow> error + string"
  safe_abs_path :: "string \<Rightarrow> string"
  open_repo :: "string \<Rightarrow> 'r"
  working_tree_dir :: "'r \<Rightarrow> string"
  repo_is_dirty :: "'r \<Rightarrow> bool"
  git_diff :: "'r \<Rightarrow> string list \<Rightarrow> error + string"
  git_commit :: "'r \<Rightarrow> string list \<Rightarrow> 'r \<times> error option"
  head_commit :: "'r \<Rightarrow> commit_obj option"
  send_with_retries ::
    "(string \<times> message list) list \<Rightarrow> string \<Rightarrow> message list \<Rightarrow> error + string option"
  GPT35_name :: string
  GPT35_16k_name :: string
  commit_system :: string
  os_sep :: char

text \<open>
  The state that the methods pass along: the fields of the object (\<open>io\<close>, \<open>repo\<close>,
  \<open>root\<close>) and the trace of what was asked of the two services, \<open>git_calls\<close> for the
  commands issued through \<open>repo.git\<close> (the command name, then its arguments) and
  \<open>llm_calls\<close> for the requests (the model name and the messages).
\<close>

record 'r state =
  io :: "notice list"
  repo :: "'r"
  root :: string
  git_calls :: "string list list"
  llm_calls :: "(string \<times> message list) list"

subsection \<open>Python strings\<close>

text \<open>The truth value of an optional string: \<open>None\<close> and \<open>""\<close> are false.\<close>

fun truthy :: "string option \<Rightarrow> bool" where
  "truthy None = False"
| "truthy (Some s) = (s \<noteq> [])"

text \<open>\<open>str.isspace\<close> on one code point below 256.\<close>

definition isspace :: "char \<Rightarrow> bool" where
  "isspace c =
     (let n = (of_char c :: nat)
      in (9 \<le> n \<and> n \<le> 13) \<or> (28 \<le> n \<and> n \<le> 32) \<or> n = 133 \<or> n = 160)"

text \<open>\<open>str.strip()\<close>: the leading and the trailing whitespace are removed.\<close>

definition strip :: "string \<Rightarrow> string" where
  "strip s = rev (dropWhile isspace (rev (dropWhile isspace s)))"

subsection \<open>Construction\<close>

text \<open>
  The loop of \<open>__init__\<close> over \<open>check_fnames\<close>: a name whose lookup raises
  \<open>InvalidGitRepositoryError\<close> adds nothing; any other exception of a lookup is not
  caught and ends the loop.
\<close>

fun repo_paths_of :: "'r env \<Rightarrow> string list \<Rightarrow> error + string list" where
  "repo_paths_of E [] = Inr []"
| "repo_paths_of E (fname # fnames) =
     (case search_working_dir E (path_resolve E fname) of
        Inr repo_path \<Rightarrow>
          (case repo_paths_of E fnames of
             Inr repo_paths \<Rightarrow> Inr (safe_abs_path E repo_path # repo_paths)
           | Inl e \<Rightarrow> Inl e)
      | Inl e \<Rightarrow>
          if e = InvalidGitRepositoryError then repo_paths_of E fnames else Inl e)"

definition check_fnames :: "string list \<Rightarrow> string list" where
  "check_fnames fnames = (if fnames \<noteq> [] then fnames else [''.''])"

text \<open>
  \<open>__init__\<close>: the result is the error raised or the object, together with \<open>io\<close> as the
  constructor leaves it. \<open>repo_paths.pop()\<close> takes the last element.
\<close>

definition AiderRepo_init ::
  "'r env \<Rightarrow> notice list \<Rightarrow> string list \<Rightarrow> (error + 'r state) \<times> notice list" where
  "AiderRepo_init E io0 fnames =
     (case repo_paths_of E (check_fnames fnames) of
        Inl e \<Rightarrow> (Inl e, io0)
      | Inr repo_paths \<Rightarrow>
          (let num_repos = card (set repo_paths)
           in if num_repos = 0 then (Inl FileNotFoundError, io0)
              else if num_repos > 1 then
                (Inl FileNotFoundError, io0 @ [Tool_error ''Files are in different git repos.''])
              else
                (let r = open_repo E (last repo_paths)
                 in (Inr \<lparr>io = io0, repo = r, root = safe_abs_path E (working_tree_dir E r),
                          git_calls = [], llm_calls = []\<rparr>, io0))))"

subsection \<open>Diffs\<close>

text \<open>
  \<open>get_diffs(pretty, *args)\<close>: the diff, or the exception of the command, which the
  method does not catch.
\<close>

definition get_diffs ::
  "'r env \<Rightarrow> bool \<Rightarrow> string list \<Rightarrow> 'r state \<Rightarrow> (error + string) \<times> 'r state" where
  "get_diffs E pretty args0 s =
     (let args1 = (if pretty then ''--color'' # args0 else args0);
          args2 = (if args1 = [] then [''HEAD''] else args1)
      in (git_diff E (repo s) args2, s\<lparr>git_calls := git_calls s @ [''diff'' # args2]\<rparr>))"

subsection \<open>The generated commit message\<close>

text \<open>
  The loop \<open>for model in [models.GPT35.name, models.GPT35_16k.name]\<close>. The request
  is made with \<open>model=models.GPT35.name\<close>, as the source has it; an answer leaves the
  loop, \<open>AttributeError\<close> and \<open>InvalidRequestError\<close> go on to the next turn, any
  other exception leaves the method, and after the last turn \<open>commit_message\<close> is
  still \<open>None\<close>.
\<close>

fun try_models ::
  "'r env \<Rightarrow> message list \<Rightarrow> string list \<Rightarrow> 'r state \<Rightarrow> (error + string option) \<times> 'r state" where
  "try_models E messages [] s = (Inr None, s)"
| "try_models E messages (model # models) s =
     (let s' = s\<lparr>llm_calls := llm_calls s @ [(GPT35_name E, messages)]\<rparr>
      in case send_with_retries E (llm_calls s) (GPT35_name E) messages of
           Inr c \<Rightarrow> (Inr c, s')
         | Inl e \<Rightarrow>
             if e = AttributeError \<or> e = InvalidRequestError
             then try_models E messages models s' else (Inl e, s'))"

text \<open>The list \<open>messages\<close> that \<open>get_commit_message\<close> composes (lines 96 to 108).\<close>

definition commit_prompt :: "'r env \<Rightarrow> string \<Rightarrow> string option \<Rightarrow> message list" where
  "commit_prompt E diffs context =
     (let diffs' = ''# Diffs:\<newline>'' @ diffs;
          content0 = (case context of
                        Some c \<Rightarrow> if c \<noteq> [] then c @ ''\<newline>'' else []
                      | None \<Rightarrow> []);
          content1 = content0 @ diffs'
      in [\<lparr>role = ''system'', content = commit_system E\<rparr>,
          \<lparr>role = ''user'', content = content1\<rparr>])"

text \<open>The last lines of \<open>get_commit_message\<close> (128 to 132), on a non-empty answer.\<close>

definition unquote :: "string \<Rightarrow> string" where
  "unquote commit_message =
     (let m = strip commit_message
      in if m \<noteq> [] \<and> hd m = CHR 0x22 \<and> last m = CHR 0x22
         then strip (butlast (tl m)) else m)"

text \<open>
  \<open>get_commit_message(diffs, context)\<close>: \<open>Inr None\<close> where the method returns
  nothing, \<open>Inr (Some m)\<close> where it returns the message \<open>m\<close>, and \<open>Inl e\<close> where an
  exception of an attempt leaves it.
\<close>

definition get_commit_message ::
  "'r env \<Rightarrow> string \<Rightarrow> string option \<Rightarrow> 'r state \<Rightarrow> (error + string option) \<times> 'r state" where
  "get_commit_message E diffs context s =
     (if length diffs \<ge> 4 * 1024 * 4 then
        (Inr None, s\<lparr>io := io s @ [Tool_error (''Diff is too large for '' @ GPT35_name E
                                                @ '' to generate a commit message.'')]\<rparr>)
      else
        (case try_models E (commit_prompt E diffs context)
                [GPT35_name E, GPT35_16k_name E] s of
           (Inl e, s') \<Rightarrow> (Inl e, s')
         | (Inr commit_message, s') \<Rightarrow>
             if \<not> truthy commit_message then
               (Inr None, s'\<lparr>io := io s' @ [Tool_error ''Failed to generate commit message!'']\<rparr>)
             else (Inr (map_option unquote commit_message), s')))"

subsection \<open>Commit\<close>

text \<open>
  \<open>commit(context, prefix, message)\<close>. The result is \<open>Inr None\<close> where the method
  returns nothing, \<open>Inr (Some (commit_hash, commit_message))\<close> where it returns the
  pair, and \<open>Inl e\<close> where an exception leaves it: one of \<open>git diff\<close>, of
  \<open>get_commit_message\<close> or of \<open>git commit\<close>, or the \<open>ValueError\<close> of
  \<open>repo.head.commit\<close>. The command is entered in \<open>git_calls\<close> whether it raises or
  not.
\<close>

definition commit ::
  "'r env \<Rightarrow> string option \<Rightarrow> string option \<Rightarrow> string option \<Rightarrow> 'r state
     \<Rightarrow> (error + (string \<times> string) option) \<times> 'r state" where
  "commit E context prefix message s =
     (if \<not> repo_is_dirty E (repo s) then (Inr None, s)
      else
        (case (if truthy message then (Inr message, s)
               else (case get_diffs E False [] s of
                       (Inl e, s1) \<Rightarrow> (Inl e, s1)
                     | (Inr diffs, s1) \<Rightarrow> get_commit_message E diffs context s1)) of
           (Inl e, s2) \<Rightarrow> (Inl e, s2)
         | (Inr generated, s2) \<Rightarrow>
             (let commit_message0 =
                    (case generated of
                       Some m \<Rightarrow> if m \<noteq> [] then m else ''(no commit message provided)''
                     | None \<Rightarrow> ''(no commit message provided)'');
                  commit_message =
                    (case prefix of
                       Some p \<Rightarrow> if p \<noteq> [] then p @ commit_message0 else commit_message0
                     | None \<Rightarrow> commit_message0);
                  full_commit_message =
                    (case context of
                       Some c \<Rightarrow>
                         if c \<noteq> [] then
                           commit_message @ ''\<newline>\<newline># Aider chat conversation:\<newline>\<newline>'' @ c
                         else commit_message
                     | None \<Rightarrow> commit_message);
                  cmd = [''-a'', ''-m'', full_commit_message, ''--no-verify''];
                  r' = fst (git_commit E (repo s2) cmd);
                  s3 = s2\<lparr>repo := r', git_calls := git_calls s2 @ [''commit'' # cmd]\<rparr>
              in case snd (git_commit E (repo s2) cmd) of
                   Some e \<Rightarrow> (Inl e, s3)
                 | None \<Rightarrow>
                     (case head_commit E r' of
                        None \<Rightarrow> (Inl ValueError, s3)
                      | Some c \<Rightarrow>
                          (let commit_hash = take 7 (hexsha c)
                           in (Inr (Some (commit_hash, commit_message)),
                               s3\<lparr>io := io s3 @ [Tool_output (''Commit '' @ commit_hash @ '' ''
                                                                @ commit_message)]\<rparr>))))))"

subsection \<open>Tracked files\<close>

text \<open>
  \<open>str(Path(PurePosixPath(path)))\<close> on a path of a git tree: the components, which
  git separates by single slashes, are joined with the separator of the host.
\<close>

definition os_path :: "'r env \<Rightarrow> string \<Rightarrow> string" where
  "os_path E path = map (\<lambda>c. if c = CHR ''/'' then os_sep E else c) path"

text \<open>
  \<open>get_tracked_files\<close> returns an empty list where \<open>self.repo\<close> is the class-level
  placeholder \<open>None\<close>, and a set otherwise.
\<close>

datatype tracked = File_list "string list" | File_set "string set"

definition get_tracked_files :: "'r env \<Rightarrow> 'r option \<Rightarrow> tracked" where
  "get_tracked_files E self_repo =
     (case self_repo of
        None \<Rightarrow> File_list []
      | Some r \<Rightarrow>
          (case head_commit E r of
             None \<Rightarrow> File_set {}
           | Some c \<Rightarrow>
               (let files = map snd (filter (\<lambda>blob. fst blob = ''blob'') (tree_traverse c))
                in File_set (set (map (os_path E) files)))))"

definition is_dirty :: "'r env \<Rightarrow> 'r state \<Rightarrow> bool" where
  "is_dirty E s = repo_is_dirty E (repo s)"

subsection \<open>Notation for the statements about \<open>commit\<close>\<close>

text \<open>
  The pieces of the message that \<open>commit\<close> composes: the fixed text used when there is
  no message, the prefix (nothing when it is \<open>None\<close> or empty), the section appended
  for a non-empty context, and the message kept from a generation.
\<close>

abbreviation placeholder :: string where
  "placeholder \<equiv> ''(no commit message provided)''"

abbreviation prefix_part :: "string option \<Rightarrow> string" where
  "prefix_part prefix \<equiv> (case prefix of Some p \<Rightarrow> p | None \<Rightarrow> [])"

abbreviation context_part :: "string option \<Rightarrow> string" where
  "context_part context \<equiv>
     (case context of
        Some c \<Rightarrow> if c \<noteq> [] then ''\<newline>\<newline># Aider chat conversation:\<newline>\<newline>'' @ c else []
      | None \<Rightarrow> [])"

abbreviation message_or_placeholder :: "string option \<Rightarrow> string" where
  "message_or_placeholder generated \<equiv>
     (case generated of Some m \<Rightarrow> if m \<noteq> [] then m else placeholder | None \<Rightarrow> placeholder)"

subsection \<open>A concrete instance of the services\<close>

text \<open>
  The theorems below hold for every instance of \<open>env\<close>. To evaluate the model on
  concrete inputs, this instance is used: a repository handle is its directory, a
  dirty flag and the messages committed so far; \<open>/w\<close> and \<open>/other\<close> are two
  repositories, \<open>/tmp/x\<close> lies in none and any other path does not exist; the
  commands succeed; the primary model rejects every request and the larger one would
  answer.
\<close>

record example_repo =
  dir :: string
  dirty :: bool
  history :: "string list"

definition example_head :: commit_obj where
  "example_head =
     \<lparr>hexsha = ''0123456789abcdef0123456789abcdef01234567'',
      tree_traverse = [(''tree'', ''a''), (''blob'', ''a/b.txt''), (''blob'', ''c.txt'')]\<rparr>"

definition example_env :: "example_repo env" where
  "example_env =
     \<lparr>path_resolve = (\<lambda>fname. fname),
      search_working_dir =
        (\<lambda>fname.
           case map_of [(''.'', Inr ''/w''), (''/w/a.py'', Inr ''/w''), (''/w/lib/b.py'', Inr ''/w''),
                        (''/other/c.py'', Inr ''/other''),
                        (''/tmp/x'', Inl InvalidGitRepositoryError)] fname of
             Some found \<Rightarrow> found
           | None \<Rightarrow> Inl NoSuchPathError),
      safe_abs_path = (\<lambda>p. p),
      open_repo = (\<lambda>p. \<lparr>dir = p, dirty = False, history = []\<rparr>),
      working_tree_dir = dir,
      repo_is_dirty = dirty,
      git_diff = (\<lambda>r args. Inr ''+print(1)''),
      git_commit = (\<lambda>r args. (r\<lparr>dirty := False, history := concat args # history r\<rparr>, None)),
      head_commit = (\<lambda>r. if history r = [] then None else Some example_head),
      send_with_retries =
        (\<lambda>calls model messages.
           if model = ''gpt-3.5-turbo-16k'' then Inr (Some ''Print one'')
           else Inl InvalidRequestError),
      GPT35_name = ''gpt-3.5-turbo'',
      GPT35_16k_name = ''gpt-3.5-turbo-16k'',
      commit_system = ''Write a commit message.'',
      os_sep = CHR ''/''\<rparr>"

definition example_state :: "bool \<Rightarrow> example_repo state" where
  "example_state d =
     \<lparr>io = [], repo = \<lparr>dir = ''/w'', dirty = d, history = []\<rparr>, root = ''/w'',
      git_calls = [], llm_calls = []\<rparr>"

section \<open>Properties\<close>

subsection \<open>Commit on a clean working tree\<close>

text \<open>
  Claim C2. When \<open>repo.is_dirty()\<close> is false, \<open>commit\<close> returns nothing and the
  state is the one it started from, whatever \<open>context\<close>, \<open>prefix\<close> and \<open>message\<close>
  are: the handle is unchanged, no command is issued through \<open>repo.git\<close>, no request
  is made and nothing is written to \<open>io\<close>.
\<close>

theorem commit_clean_noop:
  "\<not> repo_is_dirty E (repo s) \<Longrightarrow> commit E context prefix message s = (Inr None, s)"
  by (simp add: commit_def)

theorem commit_clean_noop_witness:
  "\<not> repo_is_dirty example_env (repo (example_state False))
   \<and> commit example_env (Some ''chat'') (Some ''aider: '') (Some ''Fix it'') (example_state False)
       = (Inr None, example_state False)"
proof -
  have clean: "\<not> repo_is_dirty example_env (repo (example_state False))"
    by (simp add: example_env_def example_state_def)
  show ?thesis
    using clean commit_clean_noop [OF clean] by simp
qed

subsection \<open>Construction\<close>

text \<open>
  The loop ends normally exactly when no lookup raises anything but
  \<open>InvalidGitRepositoryError\<close>; the paths collected are then the roots of the names that
  lie in a repository. Otherwise the exception of a lookup leaves the constructor.
\<close>

lemma repo_paths_of_Inr:
  "repo_paths_of E fnames = Inr repo_paths \<Longrightarrow>
     set repo_paths =
       {safe_abs_path E p | f p. f \<in> set fnames \<and> search_working_dir E (path_resolve E f) = Inr p}
     \<and> (\<forall>f\<in>set fnames. \<forall>e. search_working_dir E (path_resolve E f) = Inl e \<longrightarrow>
            e = InvalidGitRepositoryError)"
proof (induction fnames arbitrary: repo_paths)
  case Nil
  then show ?case by simp
next
  case (Cons fname fnames)
  show ?case
  proof (cases "search_working_dir E (path_resolve E fname)")
    case (Inl e)
    with Cons.prems have e: "e = InvalidGitRepositoryError"
      and r: "repo_paths_of E fnames = Inr repo_paths"
      by (auto split: if_splits)
    from Cons.IH [OF r] Inl e show ?thesis by auto
  next
    case (Inr p)
    with Cons.prems obtain ps where r: "repo_paths_of E fnames = Inr ps"
      and rp: "repo_paths = safe_abs_path E p # ps"
      by (auto split: sum.splits)
    from Cons.IH [OF r] Inr rp show ?thesis by auto
  qed
qed

lemma repo_paths_of_Inl:
  "repo_paths_of E fnames = Inl e \<Longrightarrow>
     e \<noteq> InvalidGitRepositoryError
     \<and> (\<exists>f\<in>set fnames. search_working_dir E (path_resolve E f) = Inl e)"
proof (induction fnames)
  case Nil
  then show ?case by simp
next
  case (Cons fname fnames)
  then show ?case
    by (cases "search_working_dir E (path_resolve E fname)") (auto split: if_splits sum.splits)
qed

lemma repo_paths_of_Inr_iff:
  "(\<exists>repo_paths. repo_paths_of E fnames = Inr repo_paths) \<longleftrightarrow>
     (\<forall>f\<in>set fnames. \<forall>e. search_working_dir E (path_resolve E f) = Inl e \<longrightarrow>
        e = InvalidGitRepositoryError)"
proof
  assume "\<exists>repo_paths. repo_paths_of E fnames = Inr repo_paths"
  then show "\<forall>f\<in>set fnames. \<forall>e. search_working_dir E (path_resolve E f) = Inl e \<longrightarrow>
        e = InvalidGitRepositoryError"
    using repo_paths_of_Inr by blast
next
  assume a: "\<forall>f\<in>set fnames. \<forall>e. search_working_dir E (path_resolve E f) = Inl e \<longrightarrow>
        e = InvalidGitRepositoryError"
  show "\<exists>repo_paths. repo_paths_of E fnames = Inr repo_paths"
  proof (cases "repo_paths_of E fnames")
    case (Inl e)
    from repo_paths_of_Inl [OF Inl] a show ?thesis by blast
  next
    case (Inr ps)
    then show ?thesis by blast
  qed
qed

lemma last_of_singleton_set: "set xs = {x} \<Longrightarrow> last xs = x"
  by (metis last_in_set empty_set insert_not_empty singletonD)

lemma AiderRepo_init_raised:
  "repo_paths_of E (check_fnames fnames) = Inl e \<Longrightarrow> AiderRepo_init E io0 fnames = (Inl e, io0)"
  by (simp add: AiderRepo_init_def)

lemma AiderRepo_init_none:
  "repo_paths_of E (check_fnames fnames) = Inr repo_paths \<Longrightarrow> set repo_paths = {} \<Longrightarrow>
     AiderRepo_init E io0 fnames = (Inl FileNotFoundError, io0)"
  by (simp add: AiderRepo_init_def)

lemma AiderRepo_init_one:
  assumes r: "repo_paths_of E (check_fnames fnames) = Inr repo_paths"
    and p: "set repo_paths = {p}"
  shows "AiderRepo_init E io0 fnames =
       (Inr \<lparr>io = io0, repo = open_repo E p,
             root = safe_abs_path E (working_tree_dir E (open_repo E p)),
             git_calls = [], llm_calls = []\<rparr>, io0)"
proof -
  have l: "last repo_paths = p"
    using p by (rule last_of_singleton_set)
  have c: "card (set repo_paths) = 1"
    using p by simp
  show ?thesis
    unfolding AiderRepo_init_def r sum.case Let_def c l by simp
qed

lemma AiderRepo_init_many:
  assumes r: "repo_paths_of E (check_fnames fnames) = Inr repo_paths"
    and m: "1 < card (set repo_paths)"
  shows "AiderRepo_init E io0 fnames =
       (Inl FileNotFoundError, io0 @ [Tool_error ''Files are in different git repos.''])"
proof -
  have "card (set repo_paths) \<noteq> 0"
    using m by linarith
  then show ?thesis
    unfolding AiderRepo_init_def r sum.case Let_def using m by (simp del: card_0_eq List.finite_set)
qed

lemma AiderRepo_init_succeeds_iff:
  assumes r: "repo_paths_of E (check_fnames fnames) = Inr repo_paths"
  shows "(\<exists>s. fst (AiderRepo_init E io0 fnames) = Inr s) \<longleftrightarrow> (\<exists>p. set repo_paths = {p})"
proof -
  let ?R = "set repo_paths"
  consider "card ?R = 0" | "card ?R = 1" | "1 < card ?R" by linarith
  then show ?thesis
  proof cases
    case 1
    then have e: "?R = {}" by simp
    have "fst (AiderRepo_init E io0 fnames) = Inl FileNotFoundError"
      by (simp add: AiderRepo_init_none [OF r e])
    moreover have "\<not> (\<exists>p. ?R = {p})" unfolding e by simp
    ultimately show ?thesis by simp
  next
    case 2
    then obtain p where p: "?R = {p}" by (rule card_1_singletonE)
    have "\<exists>s. fst (AiderRepo_init E io0 fnames) = Inr s"
      by (simp add: AiderRepo_init_one [OF r p])
    with p show ?thesis by blast
  next
    case 3
    have "fst (AiderRepo_init E io0 fnames) = Inl FileNotFoundError"
      by (simp add: AiderRepo_init_many [OF r 3])
    moreover have "\<not> (\<exists>p. ?R = {p})"
    proof
      assume "\<exists>p. ?R = {p}"
      then obtain p where "?R = {p}" ..
      then have "card ?R = 1"
        by (simp only: card.empty card_insert_if finite.emptyI empty_iff if_False)
      with 3 show False by simp
    qed
    ultimately show ?thesis by simp
  qed
qed

text \<open>
  Claim C1, as the code has it. The names looked up are \<open>check_fnames fnames\<close>: the
  names given, or the current directory \<open>.\<close> alone when none is given.
  \<^item> When the lookup of a name raises an exception other than
    \<open>InvalidGitRepositoryError\<close> (\<open>NoSuchPathError\<close> for a name that does not exist),
    that exception leaves the constructor, whatever the other names are.
  \<^item> Otherwise, which is when every name either lies in a repository or raises
    \<open>InvalidGitRepositoryError\<close>, with the set of the roots found:
    when it is empty, \<open>FileNotFoundError\<close> is raised and nothing is written to \<open>io\<close>;
    when it has more than one element, the error notice
    \<open>Files are in different git repos.\<close> is written and \<open>FileNotFoundError\<close> is raised;
    when it is a single root, the object is built on that root.
    So construction then succeeds if and only if at least one name lies in a repository
    and all the names that do have the same root; a name that raises
    \<open>InvalidGitRepositoryError\<close> is skipped.
\<close>

theorem AiderRepo_init_resolution:
  "(\<forall>e. repo_paths_of E (check_fnames fnames) = Inl e \<longrightarrow>
      AiderRepo_init E io0 fnames = (Inl e, io0)
      \<and> e \<noteq> InvalidGitRepositoryError
      \<and> (\<exists>f\<in>set (check_fnames fnames). search_working_dir E (path_resolve E f) = Inl e))
   \<and> (\<forall>repo_paths. repo_paths_of E (check_fnames fnames) = Inr repo_paths \<longrightarrow>
        (set repo_paths = {} \<longrightarrow>
           AiderRepo_init E io0 fnames = (Inl FileNotFoundError, io0))
        \<and> (1 < card (set repo_paths) \<longrightarrow>
           AiderRepo_init E io0 fnames =
             (Inl FileNotFoundError, io0 @ [Tool_error ''Files are in different git repos.'']))
        \<and> (\<forall>p. set repo_paths = {p} \<longrightarrow>
           AiderRepo_init E io0 fnames =
             (Inr \<lparr>io = io0, repo = open_repo E p,
                   root = safe_abs_path E (working_tree_dir E (open_repo E p)),
                   git_calls = [], llm_calls = []\<rparr>, io0))
        \<and> ((\<exists>s. fst (AiderRepo_init E io0 fnames) = Inr s) \<longleftrightarrow> (\<exists>p. set repo_paths = {p}))
        \<and> set repo_paths =
             {safe_abs_path E p | f p.
                f \<in> set (check_fnames fnames) \<and> search_working_dir E (path_resolve E f) = Inr p})
   \<and> ((\<exists>repo_paths. repo_paths_of E (check_fnames fnames) = Inr repo_paths) \<longleftrightarrow>
        (\<forall>f\<in>set (check_fnames fnames). \<forall>e.
           search_working_dir E (path_resolve E f) = Inl e \<longrightarrow> e = InvalidGitRepositoryError))"
proof -
  have a: "AiderRepo_init E io0 fnames = (Inl e, io0)
      \<and> e \<noteq> InvalidGitRepositoryError
      \<and> (\<exists>f\<in>set (check_fnames fnames). search_working_dir E (path_resolve E f) = Inl e)"
    if "repo_paths_of E (check_fnames fnames) = Inl e" for e
    using AiderRepo_init_raised [OF that] repo_paths_of_Inl [OF that] by blast
  have b: "(set repo_paths = {} \<longrightarrow>
           AiderRepo_init E io0 fnames = (Inl FileNotFoundError, io0))
        \<and> (1 < card (set repo_paths) \<longrightarrow>
           AiderRepo_init E io0 fnames =
             (Inl FileNotFoundError, io0 @ [Tool_error ''Files are in different git repos.'']))
        \<and> (\<forall>p. set repo_paths = {p} \<longrightarrow>
           AiderRepo_init E io0 fnames =
             (Inr \<lparr>io = io0, repo = open_repo E p,
                   root = safe_abs_path E (working_tree_dir E (open_repo E p)),
                   git_calls = [], llm_calls = []\<rparr>, io0))
        \<and> ((\<exists>s. fst (AiderRepo_init E io0 fnames) = Inr s) \<longleftrightarrow> (\<exists>p. set repo_paths = {p}))
        \<and> set repo_paths =
             {safe_abs_path E p | f p.
                f \<in> set (check_fnames fnames) \<and> search_working_dir E (path_resolve E f) = Inr p}"
    if r: "repo_paths_of E (check_fnames fnames) = Inr repo_paths" for repo_paths
  proof (intro conjI allI impI)
    show "AiderRepo_init E io0 fnames = (Inl FileNotFoundError, io0)" if "set repo_paths = {}"
      using that by (rule AiderRepo_init_none [OF r])
    show "AiderRepo_init E io0 fnames =
             (Inl FileNotFoundError, io0 @ [Tool_error ''Files are in different git repos.''])"
      if "1 < card (set repo_paths)"
      using that by (rule AiderRepo_init_many [OF r])
    show "AiderRepo_init E io0 fnames =
             (Inr \<lparr>io = io0, repo = open_repo E p,
                   root = safe_abs_path E (working_tree_dir E (open_repo E p)),
                   git_calls = [], llm_calls = []\<rparr>, io0)"
      if "set repo_paths = {p}" for p
      using that by (rule AiderRepo_init_one [OF r])
    show "(\<exists>s. fst (AiderRepo_init E io0 fnames) = Inr s) \<longleftrightarrow> (\<exists>p. set repo_paths = {p})"
      by (rule AiderRepo_init_succeeds_iff [OF r])
    show "set repo_paths =
             {safe_abs_path E p | f p.
                f \<in> set (check_fnames fnames) \<and> search_working_dir E (path_resolve E f) = Inr p}"
      by (rule repo_paths_of_Inr [OF r, THEN conjunct1])
  qed
  show ?thesis
  proof (intro conjI allI impI)
    fix e assume "repo_paths_of E (check_fnames fnames) = Inl e"
    from a [OF this]
    show "AiderRepo_init E io0 fnames = (Inl e, io0)"
      and "e \<noteq> InvalidGitRepositoryError"
      and "\<exists>f\<in>set (check_fnames fnames). search_working_dir E (path_resolve E f) = Inl e"
      by blast+
  next
    fix repo_paths assume r: "repo_paths_of E (check_fnames fnames) = Inr repo_paths"
    note b' = b [OF r]
    show "AiderRepo_init E io0 fnames = (Inl FileNotFoundError, io0)" if "set repo_paths = {}"
      using that b' [THEN conjunct1] by (rule rev_mp)
    show "AiderRepo_init E io0 fnames =
             (Inl FileNotFoundError, io0 @ [Tool_error ''Files are in different git repos.''])"
      if "1 < card (set repo_paths)"
      using that b' [THEN conjunct2, THEN conjunct1] by (rule rev_mp)
    show "AiderRepo_init E io0 fnames =
             (Inr \<lparr>io = io0, repo = open_repo E p,
                   root = safe_abs_path E (working_tree_dir E (open_repo E p)),
                   git_calls = [], llm_calls = []\<rparr>, io0)"
      if "set repo_paths = {p}" for p
      using that b' [THEN conjunct2, THEN conjunct2, THEN conjunct1, THEN spec] by (rule rev_mp)
    show "(\<exists>s. fst (AiderRepo_init E io0 fnames) = Inr s) \<longleftrightarrow> (\<exists>p. set repo_paths = {p})"
      by (rule b' [THEN conjunct2, THEN conjunct2, THEN conjunct2, THEN conjunct1])
    show "set repo_paths =
             {safe_abs_path E p | f p.
                f \<in> set (check_fnames fnames) \<and> search_working_dir E (path_resolve E f) = Inr p}"
      by (rule b' [THEN conjunct2, THEN conjunct2, THEN conjunct2, THEN conjunct2])
  next
    show "(\<exists>repo_paths. repo_paths_of E (check_fnames fnames) = Inr repo_paths) \<longleftrightarrow>
        (\<forall>f\<in>set (check_fnames fnames). \<forall>e.
           search_working_dir E (path_resolve E f) = Inl e \<longrightarrow> e = InvalidGitRepositoryError)"
      by (rule repo_paths_of_Inr_iff)
  qed
qed

text \<open>The lookups of the instance \<open>example_env\<close> for four lists of names.\<close>

lemma example_lookup_same:
  "repo_paths_of example_env (check_fnames [''/w/a.py'', ''/tmp/x'', ''/w/lib/b.py''])
     = Inr [''/w'', ''/w'']"
  by (simp add: example_env_def check_fnames_def)

lemma example_lookup_none:
  "repo_paths_of example_env (check_fnames [''/tmp/x'']) = Inr []"
  by (simp add: example_env_def check_fnames_def)

lemma example_lookup_two:
  "repo_paths_of example_env (check_fnames [''/w/a.py'', ''/other/c.py'']) = Inr [''/w'', ''/other'']"
  by (simp add: example_env_def check_fnames_def)

lemma example_lookup_missing:
  "repo_paths_of example_env (check_fnames [''/w/new.py'', ''/w/a.py'']) = Inl NoSuchPathError"
  by (simp add: example_env_def check_fnames_def)

theorem AiderRepo_init_resolution_witness:
  "repo_paths_of example_env (check_fnames [''/w/a.py'', ''/tmp/x'', ''/w/lib/b.py''])
     = Inr [''/w'', ''/w'']
   \<and> AiderRepo_init example_env [] [''/w/a.py'', ''/tmp/x'', ''/w/lib/b.py''] =
       (Inr \<lparr>io = [], repo = \<lparr>dir = ''/w'', dirty = False, history = []\<rparr>, root = ''/w'',
             git_calls = [], llm_calls = []\<rparr>, [])
   \<and> repo_paths_of example_env (check_fnames [''/tmp/x'']) = Inr []
   \<and> AiderRepo_init example_env [] [''/tmp/x''] = (Inl FileNotFoundError, [])
   \<and> repo_paths_of example_env (check_fnames [''/w/a.py'', ''/other/c.py'']) = Inr [''/w'', ''/other'']
   \<and> AiderRepo_init example_env [] [''/w/a.py'', ''/other/c.py''] =
       (Inl FileNotFoundError, [Tool_error ''Files are in different git repos.''])
   \<and> repo_paths_of example_env (check_fnames [''/w/new.py'', ''/w/a.py'']) = Inl NoSuchPathError
   \<and> AiderRepo_init example_env [] [''/w/new.py'', ''/w/a.py''] = (Inl NoSuchPathError, [])"
proof -
  have one: "set [''/w'', ''/w''] = {''/w''}" by simp
  have none: "set ([] :: string list) = {}" by simp
  have many: "1 < card (set [''/w'', ''/other''])" by simp
  note a = AiderRepo_init_resolution
             [of example_env "[''/w/a.py'', ''/tmp/x'', ''/w/lib/b.py'']" "[]",
              THEN conjunct2, THEN conjunct1, THEN spec, THEN mp, OF example_lookup_same,
              THEN conjunct2, THEN conjunct2, THEN conjunct1, THEN spec, THEN mp, OF one]
  note b = AiderRepo_init_resolution
             [of example_env "[''/tmp/x'']" "[]",
              THEN conjunct2, THEN conjunct1, THEN spec, THEN mp, OF example_lookup_none,
              THEN conjunct1, THEN mp, OF none]
  note c = AiderRepo_init_resolution
             [of example_env "[''/w/a.py'', ''/other/c.py'']" "[]",
              THEN conjunct2, THEN conjunct1, THEN spec, THEN mp, OF example_lookup_two,
              THEN conjunct2, THEN conjunct1, THEN mp, OF many]
  note d = AiderRepo_init_resolution
             [of example_env "[''/w/new.py'', ''/w/a.py'']" "[]",
              THEN conjunct1, THEN spec, THEN mp, OF example_lookup_missing, THEN conjunct1]
  have a': "AiderRepo_init example_env [] [''/w/a.py'', ''/tmp/x'', ''/w/lib/b.py''] =
       (Inr \<lparr>io = [], repo = \<lparr>dir = ''/w'', dirty = False, history = []\<rparr>, root = ''/w'',
             git_calls = [], llm_calls = []\<rparr>, [])"
    unfolding a by (simp add: example_env_def)
  have c': "AiderRepo_init example_env [] [''/w/a.py'', ''/other/c.py''] =
       (Inl FileNotFoundError, [Tool_error ''Files are in different git repos.''])"
    unfolding c by simp
  from example_lookup_same a' example_lookup_none b example_lookup_two c' example_lookup_missing d
  show ?thesis by (intro conjI)
qed

text \<open>
  The claim as stated fails in two places. Where no name is given, no given name lies
  in a repository, and yet the object is built, on the repository of the current
  directory. Where \<open>/w/new.py\<close> does not exist and \<open>/w/a.py\<close> lies in the repository
  \<open>/w\<close>, every name that lies in a repository has the same root, and yet construction
  fails, with \<open>NoSuchPathError\<close>.
\<close>

theorem AiderRepo_init_no_input_counterexample:
  "repo_paths_of example_env [] = Inr []
   \<and> AiderRepo_init example_env [] [] =
       (Inr \<lparr>io = [], repo = \<lparr>dir = ''/w'', dirty = False, history = []\<rparr>, root = ''/w'',
             git_calls = [], llm_calls = []\<rparr>, [])
   \<and> search_working_dir example_env (path_resolve example_env ''/w/a.py'') = Inr ''/w''
   \<and> search_working_dir example_env (path_resolve example_env ''/w/new.py'') = Inl NoSuchPathError
   \<and> AiderRepo_init example_env [] [''/w/new.py'', ''/w/a.py''] = (Inl NoSuchPathError, [])"
proof -
  have r: "repo_paths_of example_env (check_fnames []) = Inr [''/w'']"
    by (simp add: example_env_def check_fnames_def)
  have one: "set [''/w''] = {''/w''}" by simp
  have a: "AiderRepo_init example_env [] [] =
       (Inr \<lparr>io = [], repo = \<lparr>dir = ''/w'', dirty = False, history = []\<rparr>, root = ''/w'',
             git_calls = [], llm_calls = []\<rparr>, [])"
    unfolding AiderRepo_init_one [OF r one] by (simp add: example_env_def)
  have b: "search_working_dir example_env (path_resolve example_env ''/w/a.py'') = Inr ''/w''"
    by (simp add: example_env_def)
  have c: "search_working_dir example_env (path_resolve example_env ''/w/new.py'') = Inl NoSuchPathError"
    by (simp add: example_env_def)
  have d: "AiderRepo_init example_env [] [''/w/new.py'', ''/w/a.py''] = (Inl NoSuchPathError, [])"
    by (rule AiderRepo_init_raised [OF example_lookup_missing])
  have e: "repo_paths_of example_env [] = Inr []" by simp
  from e a b c d show ?thesis by (intro conjI)
qed

subsection \<open>The requests of the loop over the models\<close>

text \<open>
  Every turn of the loop adds one request, made with the name of the primary model and
  the same messages; nothing else in the state changes.
\<close>

lemma try_models_calls:
  "\<exists>k\<le>length models. llm_calls (snd (try_models E m models s)) = llm_calls s @ replicate k (GPT35_name E, m)"
proof (induction models arbitrary: s)
  case Nil
  then show ?case by simp
next
  case (Cons model models)
  let ?s' = "s\<lparr>llm_calls := llm_calls s @ [(GPT35_name E, m)]\<rparr>"
  from Cons.IH [of ?s'] obtain k where k: "k \<le> length models"
    "llm_calls (snd (try_models E m models ?s')) = llm_calls ?s' @ replicate k (GPT35_name E, m)"
    by blast
  have one: "llm_calls s @ [(GPT35_name E, m)] = llm_calls s @ replicate 1 (GPT35_name E, m)"
    by simp
  show ?case
  proof (cases "send_with_retries E (llm_calls s) (GPT35_name E) m")
    case (Inr c)
    then have "llm_calls (snd (try_models E m (model # models) s)) = llm_calls s @ replicate 1 (GPT35_name E, m)"
      by (simp add: Let_def)
    then show ?thesis by (intro exI [of _ 1]) simp
  next
    case (Inl e)
    show ?thesis
    proof (cases "e = AttributeError \<or> e = InvalidRequestError")
      case True
      with Inl have "llm_calls (snd (try_models E m (model # models) s)) = llm_calls s @ replicate (Suc k) (GPT35_name E, m)"
        using k(2) by (auto simp: Let_def)
      with k(1) show ?thesis by (intro exI [of _ "Suc k"]) simp
    next
      case False
      with Inl have "llm_calls (snd (try_models E m (model # models) s)) = llm_calls s @ replicate 1 (GPT35_name E, m)"
        by (simp add: Let_def)
      then show ?thesis by (intro exI [of _ 1]) simp
    qed
  qed
qed

lemma try_models_first_call:
  "\<exists>rest. llm_calls (snd (try_models E m (model # models) s)) = llm_calls s @ (GPT35_name E, m) # rest"
proof -
  let ?s' = "s\<lparr>llm_calls := llm_calls s @ [(GPT35_name E, m)]\<rparr>"
  from try_models_calls [of models E m ?s'] obtain k where
    k: "llm_calls (snd (try_models E m models ?s')) = llm_calls s @ (GPT35_name E, m) # replicate k (GPT35_name E, m)"
    by auto
  show ?thesis
  proof (cases "send_with_retries E (llm_calls s) (GPT35_name E) m")
    case (Inr c)
    then show ?thesis by (simp add: Let_def)
  next
    case (Inl e)
    then show ?thesis using k by (cases "e = AttributeError \<or> e = InvalidRequestError") (auto simp: Let_def)
  qed
qed

lemma try_models_frame:
  "io (snd (try_models E m models s)) = io s
   \<and> repo (snd (try_models E m models s)) = repo s
   \<and> root (snd (try_models E m models s)) = root s
   \<and> git_calls (snd (try_models E m models s)) = git_calls s"
  by (induction models arbitrary: s) (auto simp: Let_def split: sum.splits)

lemma try_models_only_primary:
  "fst ` set (llm_calls (snd (try_models E m models s))) \<subseteq> fst ` set (llm_calls s) \<union> {GPT35_name E}"
proof -
  from try_models_calls [of models E m s] obtain k where
    "llm_calls (snd (try_models E m models s)) = llm_calls s @ replicate k (GPT35_name E, m)"
    by blast
  then show ?thesis by auto
qed

subsection \<open>The size limit of the diff\<close>

lemma get_commit_message_too_large:
  "4 * 4096 \<le> length diffs \<Longrightarrow>
     get_commit_message E diffs context s =
       (Inr None, s\<lparr>io := io s @ [Tool_error (''Diff is too large for '' @ GPT35_name E
                                               @ '' to generate a commit message.'')]\<rparr>)"
  by (simp add: get_commit_message_def)

lemma get_commit_message_llm_calls:
  assumes "length diffs < 4 * 4096"
  shows "llm_calls (snd (get_commit_message E diffs context s)) =
           llm_calls (snd (try_models E (commit_prompt E diffs context)
                            [GPT35_name E, GPT35_16k_name E] s))"
proof -
  obtain g s' where t: "try_models E (commit_prompt E diffs context)
                          [GPT35_name E, GPT35_16k_name E] s = (g, s')"
    by (cases "try_models E (commit_prompt E diffs context) [GPT35_name E, GPT35_16k_name E] s")
  show ?thesis
    using assms by (cases g) (simp_all add: get_commit_message_def t del: try_models.simps)
qed

lemma get_commit_message_accepted:
  assumes "length diffs < 4 * 4096"
  shows "\<exists>rest. llm_calls (snd (get_commit_message E diffs context s)) =
           llm_calls s @ (GPT35_name E, commit_prompt E diffs context) # rest"
  unfolding get_commit_message_llm_calls [OF assms]
  by (rule try_models_first_call)

text \<open>
  Claim C3, as the code has it. The test is \<open>len(diffs) >= 4 * 1024 * 4\<close>, so
  \<^item> a diff shorter than 4 * 4096 characters is accepted: the prompt is composed
    (\<open>commit_prompt\<close>) and submitted, the first request of the call going to the primary
    model with that prompt;
  \<^item> a diff of 4 * 4096 characters or more is refused: the error notice
    \<open>Diff is too large for ... to generate a commit message.\<close> is written, no request is
    made and no message is returned.
\<close>

theorem get_commit_message_size_limit:
  "(length diffs < 4 * 4096 \<longrightarrow>
      (\<exists>rest. llm_calls (snd (get_commit_message E diffs context s)) =
                llm_calls s @ (GPT35_name E, commit_prompt E diffs context) # rest))
   \<and> (4 * 4096 \<le> length diffs \<longrightarrow>
      get_commit_message E diffs context s =
        (Inr None, s\<lparr>io := io s @ [Tool_error (''Diff is too large for '' @ GPT35_name E
                                                @ '' to generate a commit message.'')]\<rparr>))"
  using get_commit_message_accepted [of diffs E "context" s]
    get_commit_message_too_large [of diffs E "context" s]
  by blast

theorem get_commit_message_size_limit_witness:
  "length (replicate 16383 CHR ''+'') < 4 * 4096
   \<and> (\<exists>rest. llm_calls (snd (get_commit_message example_env (replicate 16383 CHR ''+'') None
                                 (example_state True))) =
         llm_calls (example_state True)
           @ (GPT35_name example_env, commit_prompt example_env (replicate 16383 CHR ''+'') None) # rest)
   \<and> 4 * 4096 \<le> length (replicate 16385 CHR ''+'')
   \<and> get_commit_message example_env (replicate 16385 CHR ''+'') None (example_state True) =
        (Inr None, (example_state True)\<lparr>io := io (example_state True)
           @ [Tool_error (''Diff is too large for '' @ GPT35_name example_env
                          @ '' to generate a commit message.'')]\<rparr>)"
proof -
  have small: "length (replicate 16383 CHR ''+'') < 4 * 4096" by simp
  have large: "4 * 4096 \<le> length (replicate 16385 CHR ''+'')" by simp
  note a = get_commit_message_size_limit
             [of "replicate 16383 CHR ''+''" example_env None "example_state True",
              THEN conjunct1, THEN mp, OF small]
  note b = get_commit_message_size_limit
             [of "replicate 16385 CHR ''+''" example_env None "example_state True",
              THEN conjunct2, THEN mp, OF large]
  from small a large b show ?thesis by (intro conjI)
qed

text \<open>
  The claim as stated fails at the threshold itself: a diff of exactly 4 * 4096
  characters is refused.
\<close>

theorem get_commit_message_threshold_counterexample:
  "length (replicate (4 * 4096) CHR ''+'') = 4 * 4096
   \<and> get_commit_message example_env (replicate (4 * 4096) CHR ''+'') None (example_state True) =
        (Inr None,
         \<lparr>io = [Tool_error ''Diff is too large for gpt-3.5-turbo to generate a commit message.''],
          repo = \<lparr>dir = ''/w'', dirty = True, history = []\<rparr>, root = ''/w'',
          git_calls = [], llm_calls = []\<rparr>)"
  by (simp add: get_commit_message_def example_env_def example_state_def)

subsection \<open>The default arguments of the diff\<close>

text \<open>
  Claim C4. With no version-control argument, \<open>get_diffs(False)\<close> runs
  \<open>git diff HEAD\<close>, the working tree against the last commit. \<open>get_diffs(True)\<close> runs
  \<open>git diff --color\<close>: the flag makes the argument list non-empty before the default
  is considered, so \<open>HEAD\<close> is not passed and the command compares the working tree with
  the index.
\<close>

theorem get_diffs_default_args:
  "get_diffs E False [] s =
     (git_diff E (repo s) [''HEAD''], s\<lparr>git_calls := git_calls s @ [[''diff'', ''HEAD'']]\<rparr>)
   \<and> get_diffs E True [] s =
     (git_diff E (repo s) [''--color''], s\<lparr>git_calls := git_calls s @ [[''diff'', ''--color'']]\<rparr>)"
  by (simp add: get_diffs_def Let_def)

subsection \<open>The model of the second attempt\<close>

text \<open>
  Claim C5. In the instance \<open>example_env\<close> the primary model rejects the request
  (\<open>InvalidRequestError\<close>) and the larger model would answer it. The loop runs twice,
  and both requests name the primary model: the loop variable \<open>model\<close> is not passed to
  \<open>send_with_retries\<close>. The larger model is never asked and no message is generated.
\<close>

theorem get_commit_message_second_attempt:
  "send_with_retries example_env [] ''gpt-3.5-turbo'' (commit_prompt example_env ''+print(1)'' None)
     = Inl InvalidRequestError
   \<and> send_with_retries example_env
        [(''gpt-3.5-turbo'', commit_prompt example_env ''+print(1)'' None)]
        ''gpt-3.5-turbo-16k'' (commit_prompt example_env ''+print(1)'' None)
     = Inr (Some ''Print one'')
   \<and> get_commit_message example_env ''+print(1)'' None (example_state True) =
       (Inr None,
        \<lparr>io = [Tool_error ''Failed to generate commit message!''],
         repo = \<lparr>dir = ''/w'', dirty = True, history = []\<rparr>, root = ''/w'',
         git_calls = [],
         llm_calls = [(''gpt-3.5-turbo'', commit_prompt example_env ''+print(1)'' None),
                      (''gpt-3.5-turbo'', commit_prompt example_env ''+print(1)'' None)]\<rparr>)"
  by (simp add: get_commit_message_def example_env_def example_state_def Let_def)

subsection \<open>Commit on a dirty working tree\<close>

text \<open>\<open>get_commit_message\<close> leaves the repository and the commands issued as they were.\<close>

lemma get_commit_message_frame:
  "repo (snd (get_commit_message E diffs context s)) = repo s
   \<and> root (snd (get_commit_message E diffs context s)) = root s
   \<and> git_calls (snd (get_commit_message E diffs context s)) = git_calls s"
proof -
  obtain g s' where t: "try_models E (commit_prompt E diffs context)
                          [GPT35_name E, GPT35_16k_name E] s = (g, s')"
    by (cases "try_models E (commit_prompt E diffs context) [GPT35_name E, GPT35_16k_name E] s")
  from try_models_frame [of E "commit_prompt E diffs context" "[GPT35_name E, GPT35_16k_name E]" s]
  have "repo s' = repo s \<and> root s' = root s \<and> git_calls s' = git_calls s"
    unfolding t by simp
  then show ?thesis
    by (cases g) (simp_all add: get_commit_message_def t del: try_models.simps)
qed

text \<open>
  The part of \<open>commit\<close> before the message is composed (lines 60 to 65), on a dirty
  working tree.
\<close>

lemma commit_raised:
  assumes dirty: "repo_is_dirty E (repo s)"
    and gen: "(if truthy message then (Inr message, s)
               else (case git_diff E (repo s) [''HEAD''] of
                       Inl e \<Rightarrow> (Inl e, s\<lparr>git_calls := git_calls s @ [[''diff'', ''HEAD'']]\<rparr>)
                     | Inr diffs \<Rightarrow>
                         get_commit_message E diffs context
                           (s\<lparr>git_calls := git_calls s @ [[''diff'', ''HEAD'']]\<rparr>)))
               = (Inl e, s2)"
  shows "commit E context prefix message s = (Inl e, s2)"
proof -
  have g: "(if truthy message then (Inr message, s)
            else (case get_diffs E False [] s of
                    (Inl e, s1) \<Rightarrow> (Inl e, s1)
                  | (Inr diffs, s1) \<Rightarrow> get_commit_message E diffs context s1)) = (Inl e, s2)"
    using gen by (cases "truthy message") (simp_all add: get_diffs_def Let_def split: sum.splits)
  show ?thesis
    unfolding commit_def g using dirty by simp
qed

text \<open>The part of \<open>commit\<close> after the message has been determined (lines 67 to 81).\<close>

lemma commit_dirty:
  assumes dirty: "repo_is_dirty E (repo s)"
    and gen: "(if truthy message then (Inr message, s)
               else (case git_diff E (repo s) [''HEAD''] of
                       Inl e \<Rightarrow> (Inl e, s\<lparr>git_calls := git_calls s @ [[''diff'', ''HEAD'']]\<rparr>)
                     | Inr diffs \<Rightarrow>
                         get_commit_message E diffs context
                           (s\<lparr>git_calls := git_calls s @ [[''diff'', ''HEAD'']]\<rparr>)))
               = (Inr generated, s2)"
  shows "commit E context prefix message s =
     (let commit_message = prefix_part prefix @ message_or_placeholder generated;
          cmd = [''-a'', ''-m'', commit_message @ context_part context, ''--no-verify''];
          s3 = s2\<lparr>repo := fst (git_commit E (repo s2) cmd),
                  git_calls := git_calls s2 @ [''commit'' # cmd]\<rparr>
      in case snd (git_commit E (repo s2) cmd) of
           Some e \<Rightarrow> (Inl e, s3)
         | None \<Rightarrow>
             (case head_commit E (fst (git_commit E (repo s2) cmd)) of
                None \<Rightarrow> (Inl ValueError, s3)
              | Some c \<Rightarrow>
                  (Inr (Some (take 7 (hexsha c), commit_message)),
                   s3\<lparr>io := io s3 @ [Tool_output (''Commit '' @ take 7 (hexsha c) @ '' ''
                                                    @ commit_message)]\<rparr>)))"
proof -
  have g: "(if truthy message then (Inr message, s)
            else (case get_diffs E False [] s of
                    (Inl e, s1) \<Rightarrow> (Inl e, s1)
                  | (Inr diffs, s1) \<Rightarrow> get_commit_message E diffs context s1)) = (Inr generated, s2)"
    using gen by (cases "truthy message") (simp_all add: get_diffs_def Let_def split: sum.splits)
  show ?thesis
    unfolding commit_def g using dirty
    by (simp add: Let_def split: option.splits)
qed



lemma get_commit_message_raised:
  assumes "length diffs < 4 * 4096"
    and "send_with_retries E (llm_calls s) (GPT35_name E) (commit_prompt E diffs context) = Inl e"
    and "e \<noteq> AttributeError" and "e \<noteq> InvalidRequestError"
  shows "get_commit_message E diffs context s =
           (Inl e, s\<lparr>llm_calls := llm_calls s @ [(GPT35_name E, commit_prompt E diffs context)]\<rparr>)"
  using assms
  by (simp add: get_commit_message_def Let_def)


lemma example_generation:
  "get_commit_message example_env ''+print(1)'' context
     ((example_state True)\<lparr>git_calls := git_calls (example_state True) @ [[''diff'', ''HEAD'']]\<rparr>)
   = (Inr None,
      \<lparr>io = [Tool_error ''Failed to generate commit message!''],
       repo = \<lparr>dir = ''/w'', dirty = True, history = []\<rparr>, root = ''/w'',
       git_calls = [[''diff'', ''HEAD'']],
       llm_calls = [(''gpt-3.5-turbo'', commit_prompt example_env ''+print(1)'' context),
                    (''gpt-3.5-turbo'', commit_prompt example_env ''+print(1)'' context)]\<rparr>)"
  by (simp add: get_commit_message_def example_env_def example_state_def Let_def)

lemma example_dirty: "repo_is_dirty example_env (repo (example_state True))"
  by (simp add: example_env_def example_state_def)

lemma example_diff: "git_diff example_env (repo (example_state True)) [''HEAD''] = Inr ''+print(1)''"
  by (simp add: example_env_def)



subsection \<open>Commit with an explicit message\<close>

text \<open>
  Claim C9, as the code has it. The test is \<open>if message:\<close>, so the message given is
  used when it is not empty. On a dirty working tree, with a non-empty message:
  \<^item> no request is made to the text-generation service;
  \<^item> the only command issued is the commit, with the prefix, the message and the context
    section, so no diff is computed;
  \<^item> the result and the state are the same whatever the text-generation service and the
    diff command would answer.
\<close>

theorem commit_explicit_message:
  assumes "repo_is_dirty E (repo s)" and "m \<noteq> []"
  shows "llm_calls (snd (commit E context prefix (Some m) s)) = llm_calls s
   \<and> git_calls (snd (commit E context prefix (Some m) s)) =
       git_calls s @ [[''commit'', ''-a'', ''-m'', prefix_part prefix @ m @ context_part context,
                       ''--no-verify'']]
   \<and> (\<forall>f g. commit (E\<lparr>send_with_retries := f, git_diff := g\<rparr>) context prefix (Some m) s
              = commit E context prefix (Some m) s)"
proof -
  have gen: "(if truthy (Some m) then (Inr (Some m), s)
               else (case git_diff E (repo s) [''HEAD''] of
                       Inl e \<Rightarrow> (Inl e, s\<lparr>git_calls := git_calls s @ [[''diff'', ''HEAD'']]\<rparr>)
                     | Inr diffs \<Rightarrow>
                         get_commit_message E diffs context
                           (s\<lparr>git_calls := git_calls s @ [[''diff'', ''HEAD'']]\<rparr>)))
               = (Inr (Some m), s)"
    using assms(2) by simp
  note c = commit_dirty [OF assms(1) gen, of prefix]
  have a: "llm_calls (snd (commit E context prefix (Some m) s)) = llm_calls s"
    unfolding c using assms(2) by (simp add: Let_def split: option.splits)
  have b: "git_calls (snd (commit E context prefix (Some m) s)) =
       git_calls s @ [[''commit'', ''-a'', ''-m'', prefix_part prefix @ m @ context_part context,
                       ''--no-verify'']]"
    unfolding c using assms(2) by (simp add: Let_def split: option.splits)
  have d: "commit (E\<lparr>send_with_retries := f, git_diff := g\<rparr>) context prefix (Some m) s
              = commit E context prefix (Some m) s" for f g
    using assms(2) by (simp add: commit_def Let_def cong: option.case_cong)
  from a b d show ?thesis by blast
qed

theorem commit_explicit_message_witness:
  "repo_is_dirty example_env (repo (example_state True)) \<and> ''Fix it'' \<noteq> []
   \<and> llm_calls (snd (commit example_env None (Some ''aider: '') (Some ''Fix it'') (example_state True))) = []
   \<and> git_calls (snd (commit example_env None (Some ''aider: '') (Some ''Fix it'') (example_state True))) =
       [[''commit'', ''-a'', ''-m'', ''aider: Fix it'', ''--no-verify'']]"
proof -
  have ne: "''Fix it'' \<noteq> []" by simp
  note c = commit_explicit_message [OF example_dirty ne, of None "Some ''aider: ''"]
  from c have "llm_calls (snd (commit example_env None (Some ''aider: '') (Some ''Fix it'') (example_state True))) = []"
    by (simp add: example_state_def)
  moreover from c have "git_calls (snd (commit example_env None (Some ''aider: '') (Some ''Fix it'') (example_state True))) =
       [[''commit'', ''-a'', ''-m'', ''aider: Fix it'', ''--no-verify'']]"
    by (simp add: example_state_def)
  ultimately show ?thesis using example_dirty ne by (intro conjI)
qed

text \<open>
  What \<open>commit\<close> does in the instance \<open>example_env\<close> when the message is \<open>None\<close> or
  empty.
\<close>

lemma example_commit_no_message:
  assumes "\<not> truthy message"
  shows "commit example_env None None message (example_state True) =
       (Inr (Some (''0123456'', ''(no commit message provided)'')),
        \<lparr>io = [Tool_error ''Failed to generate commit message!'',
               Tool_output ''Commit 0123456 (no commit message provided)''],
         repo = \<lparr>dir = ''/w'', dirty = False,
                 history = [''-a-m(no commit message provided)--no-verify'']\<rparr>,
         root = ''/w'',
         git_calls = [[''diff'', ''HEAD''],
                      [''commit'', ''-a'', ''-m'', ''(no commit message provided)'', ''--no-verify'']],
         llm_calls = [(''gpt-3.5-turbo'', commit_prompt example_env ''+print(1)'' None),
                      (''gpt-3.5-turbo'', commit_prompt example_env ''+print(1)'' None)]\<rparr>)"
proof -
  have gen: "(if truthy message then (Inr message, example_state True)
              else (case git_diff example_env (repo (example_state True)) [''HEAD''] of
                      Inl e \<Rightarrow> (Inl e, (example_state True)\<lparr>git_calls := git_calls (example_state True) @ [[''diff'', ''HEAD'']]\<rparr>)
                    | Inr diffs \<Rightarrow>
                        get_commit_message example_env diffs None
                     ((example_state True)\<lparr>git_calls := git_calls (example_state True) @ [[''diff'', ''HEAD'']]\<rparr>)))
             = (Inr None,
      \<lparr>io = [Tool_error ''Failed to generate commit message!''],
       repo = \<lparr>dir = ''/w'', dirty = True, history = []\<rparr>, root = ''/w'',
       git_calls = [[''diff'', ''HEAD'']],
       llm_calls = [(''gpt-3.5-turbo'', commit_prompt example_env ''+print(1)'' None),
                    (''gpt-3.5-turbo'', commit_prompt example_env ''+print(1)'' None)]\<rparr>)"
    using assms example_generation [of None] by (simp add: example_diff)
  show ?thesis
    unfolding commit_dirty [OF example_dirty gen, of None]
    by (simp add: example_env_def example_head_def Let_def)
qed

text \<open>
  The claim as stated fails for the explicit message \<open>""\<close>: the diff is computed and two
  requests are made.
\<close>

theorem commit_empty_message_counterexample:
  "repo_is_dirty example_env (repo (example_state True))
   \<and> llm_calls (snd (commit example_env None None (Some '''') (example_state True))) =
       [(''gpt-3.5-turbo'', commit_prompt example_env ''+print(1)'' None),
        (''gpt-3.5-turbo'', commit_prompt example_env ''+print(1)'' None)]
   \<and> git_calls (snd (commit example_env None None (Some '''') (example_state True))) =
       [[''diff'', ''HEAD''],
        [''commit'', ''-a'', ''-m'', ''(no commit message provided)'', ''--no-verify'']]"
proof -
  have falsy: "\<not> truthy (Some '''')" by simp
  show ?thesis
    unfolding example_commit_no_message [OF falsy] using example_dirty by simp
qed

subsection \<open>Commit with an empty message\<close>

text \<open>
  Claim C10. \<open>commit\<close> with the message \<open>""\<close> does what it does with no message.
  On a dirty working tree \<open>git diff HEAD\<close> is run.
  \<^item> When that command raises, as it does with \<open>GitCommandError\<close> in a repository that has
    no commit yet, the exception leaves \<open>commit\<close>: no message is requested and nothing
    is committed. \<open>show_diffs\<close> tests for a branch without commits before it asks
    for a diff; \<open>commit\<close> does not.
  \<^item> When it succeeds, \<open>get_commit_message\<close> is called on its output, and when that
    returns, the commit is issued with the prefix, the context section and a message
    that is not empty, the generated one or \<open>(no commit message provided)\<close>.
  \<^item> A message that \<open>commit\<close> returns is the prefix followed by a non-empty text.
\<close>

theorem commit_empty_message_generates:
  "commit E context prefix (Some []) s = commit E context prefix None s
   \<and> (\<forall>e. repo_is_dirty E (repo s) \<and> git_diff E (repo s) [''HEAD''] = Inl e \<longrightarrow>
        commit E context prefix (Some []) s =
          (Inl e, s\<lparr>git_calls := git_calls s @ [[''diff'', ''HEAD'']]\<rparr>))
   \<and> (\<forall>diffs generated s2.
        repo_is_dirty E (repo s) \<and> git_diff E (repo s) [''HEAD''] = Inr diffs
        \<and> get_commit_message E diffs context
             (s\<lparr>git_calls := git_calls s @ [[''diff'', ''HEAD'']]\<rparr>) = (Inr generated, s2)
       \<longrightarrow> git_calls (snd (commit E context prefix (Some []) s)) =
             git_calls s @ [[''diff'', ''HEAD''],
                            [''commit'', ''-a'', ''-m'',
                             prefix_part prefix @ message_or_placeholder generated
                               @ context_part context,
                             ''--no-verify'']]
           \<and> message_or_placeholder generated \<noteq> [])
   \<and> (\<forall>h cm. fst (commit E context prefix (Some []) s) = Inr (Some (h, cm)) \<longrightarrow>
         (\<exists>msg. msg \<noteq> [] \<and> cm = prefix_part prefix @ msg))"
proof (intro conjI allI impI)
  show "commit E context prefix (Some []) s = commit E context prefix None s"
    by (simp add: commit_def)
next
  fix e
  assume a: "repo_is_dirty E (repo s) \<and> git_diff E (repo s) [''HEAD''] = Inl e"
  then have dirty: "repo_is_dirty E (repo s)" by blast
  have gen: "(if truthy (Some []) then (Inr (Some []), s)
               else (case git_diff E (repo s) [''HEAD''] of
                       Inl e \<Rightarrow> (Inl e, s\<lparr>git_calls := git_calls s @ [[''diff'', ''HEAD'']]\<rparr>)
                     | Inr diffs \<Rightarrow>
                         get_commit_message E diffs context
                           (s\<lparr>git_calls := git_calls s @ [[''diff'', ''HEAD'']]\<rparr>)))
               = (Inl e, s\<lparr>git_calls := git_calls s @ [[''diff'', ''HEAD'']]\<rparr>)"
    using a by simp
  show "commit E context prefix (Some []) s =
          (Inl e, s\<lparr>git_calls := git_calls s @ [[''diff'', ''HEAD'']]\<rparr>)"
    by (rule commit_raised [OF dirty gen])
next
  fix diffs generated s2
  assume a: "repo_is_dirty E (repo s) \<and> git_diff E (repo s) [''HEAD''] = Inr diffs
        \<and> get_commit_message E diffs context
             (s\<lparr>git_calls := git_calls s @ [[''diff'', ''HEAD'']]\<rparr>) = (Inr generated, s2)"
  then have dirty: "repo_is_dirty E (repo s)"
    and g: "get_commit_message E diffs context
             (s\<lparr>git_calls := git_calls s @ [[''diff'', ''HEAD'']]\<rparr>) = (Inr generated, s2)"
    by blast+
  have gen: "(if truthy (Some []) then (Inr (Some []), s)
               else (case git_diff E (repo s) [''HEAD''] of
                       Inl e \<Rightarrow> (Inl e, s\<lparr>git_calls := git_calls s @ [[''diff'', ''HEAD'']]\<rparr>)
                     | Inr diffs \<Rightarrow>
                         get_commit_message E diffs context
                           (s\<lparr>git_calls := git_calls s @ [[''diff'', ''HEAD'']]\<rparr>)))
               = (Inr generated, s2)"
    using a by simp
  from get_commit_message_frame [of E diffs "context"
         "s\<lparr>git_calls := git_calls s @ [[''diff'', ''HEAD'']]\<rparr>"]
  have g2: "git_calls s2 = git_calls s @ [[''diff'', ''HEAD'']]"
    unfolding g by simp
  show "git_calls (snd (commit E context prefix (Some []) s)) =
             git_calls s @ [[''diff'', ''HEAD''],
                            [''commit'', ''-a'', ''-m'',
                             prefix_part prefix @ message_or_placeholder generated
                               @ context_part context,
                             ''--no-verify'']]"
    unfolding commit_dirty [OF dirty gen, of prefix]
    by (simp add: Let_def g2 split: option.splits)
  show "message_or_placeholder generated \<noteq> []"
    by (simp split: option.splits)
next
  fix h cm
  assume r: "fst (commit E context prefix (Some []) s) = Inr (Some (h, cm))"
  have dirty: "repo_is_dirty E (repo s)"
  proof (rule ccontr)
    assume "\<not> repo_is_dirty E (repo s)"
    then have "commit E context prefix (Some []) s = (Inr None, s)"
      by (simp add: commit_def)
    with r show False by simp
  qed
  let ?s1 = "s\<lparr>git_calls := git_calls s @ [[''diff'', ''HEAD'']]\<rparr>"
  let ?gen = "(if truthy (Some []) then (Inr (Some []), s)
               else (case git_diff E (repo s) [''HEAD''] of
                       Inl e \<Rightarrow> (Inl e, ?s1)
                     | Inr diffs \<Rightarrow> get_commit_message E diffs context ?s1))"
  obtain res s2 where gen: "?gen = (res, s2)" by (cases ?gen)
  show "\<exists>msg. msg \<noteq> [] \<and> cm = prefix_part prefix @ msg"
  proof (cases res)
    case (Inl e)
    from commit_raised [OF dirty gen [unfolded Inl], of prefix] r show ?thesis by simp
  next
    case (Inr generated)
    have ne: "message_or_placeholder generated \<noteq> []"
      by (simp split: option.splits)
    from r have "cm = prefix_part prefix @ message_or_placeholder generated"
      unfolding commit_dirty [OF dirty gen [unfolded Inr], of prefix]
      by (auto simp: Let_def split: option.splits)
    with ne show ?thesis by blast
  qed
qed

theorem commit_empty_message_generates_witness:
  "repo_is_dirty (example_env\<lparr>git_diff := (\<lambda>r args. Inl GitCommandError)\<rparr>) (repo (example_state True))
   \<and> git_diff (example_env\<lparr>git_diff := (\<lambda>r args. Inl GitCommandError)\<rparr>) (repo (example_state True))
        [''HEAD''] = Inl GitCommandError
   \<and> commit (example_env\<lparr>git_diff := (\<lambda>r args. Inl GitCommandError)\<rparr>) None None (Some [])
        (example_state True) =
       (Inl GitCommandError,
        \<lparr>io = [], repo = \<lparr>dir = ''/w'', dirty = True, history = []\<rparr>, root = ''/w'',
         git_calls = [[''diff'', ''HEAD'']], llm_calls = []\<rparr>)
   \<and> repo_is_dirty example_env (repo (example_state True))
   \<and> git_diff example_env (repo (example_state True)) [''HEAD''] = Inr ''+print(1)''
   \<and> git_calls (snd (commit example_env None (Some ''aider: '') (Some []) (example_state True))) =
       [[''diff'', ''HEAD''],
        [''commit'', ''-a'', ''-m'', ''aider: (no commit message provided)'', ''--no-verify'']]"
proof -
  let ?E = "example_env\<lparr>git_diff := (\<lambda>r args. Inl GitCommandError)\<rparr>"
  have d: "repo_is_dirty ?E (repo (example_state True))"
    by (simp add: example_env_def example_state_def)
  have f: "git_diff ?E (repo (example_state True)) [''HEAD''] = Inl GitCommandError"
    by simp
  have hyp1: "repo_is_dirty ?E (repo (example_state True))
                \<and> git_diff ?E (repo (example_state True)) [''HEAD''] = Inl GitCommandError"
    using d f by (intro conjI)
  note a = commit_empty_message_generates
             [of ?E None None "example_state True",
              THEN conjunct2, THEN conjunct1, THEN spec, THEN mp, OF hyp1]
  have a': "commit ?E None None (Some []) (example_state True) =
       (Inl GitCommandError,
        \<lparr>io = [], repo = \<lparr>dir = ''/w'', dirty = True, history = []\<rparr>, root = ''/w'',
         git_calls = [[''diff'', ''HEAD'']], llm_calls = []\<rparr>)"
    unfolding a by (simp add: example_state_def)
  have hyp2: "repo_is_dirty example_env (repo (example_state True))
        \<and> git_diff example_env (repo (example_state True)) [''HEAD''] = Inr ''+print(1)''
        \<and> get_commit_message example_env ''+print(1)'' None
             ((example_state True)\<lparr>git_calls := git_calls (example_state True) @ [[''diff'', ''HEAD'']]\<rparr>)
           = (Inr None,
      \<lparr>io = [Tool_error ''Failed to generate commit message!''],
       repo = \<lparr>dir = ''/w'', dirty = True, history = []\<rparr>, root = ''/w'',
       git_calls = [[''diff'', ''HEAD'']],
       llm_calls = [(''gpt-3.5-turbo'', commit_prompt example_env ''+print(1)'' None),
                    (''gpt-3.5-turbo'', commit_prompt example_env ''+print(1)'' None)]\<rparr>)"
    using example_dirty example_diff example_generation [of None] by (intro conjI)
  note b = commit_empty_message_generates
             [of example_env None "Some ''aider: ''" "example_state True",
              THEN conjunct2, THEN conjunct2, THEN conjunct1, THEN spec, THEN spec, THEN spec,
              THEN mp, OF hyp2, THEN conjunct1]
  have b': "git_calls (snd (commit example_env None (Some ''aider: '') (Some []) (example_state True))) =
       [[''diff'', ''HEAD''],
        [''commit'', ''-a'', ''-m'', ''aider: (no commit message provided)'', ''--no-verify'']]"
    unfolding b by (simp add: example_state_def)
  from d f a' example_dirty example_diff b' show ?thesis by (intro conjI)
qed

subsection \<open>Post-processing of the generated message\<close>

text \<open>
  \<open>strip\<close> removes whitespace at both ends and nothing else: what it returns starts
  and ends with a character that is not whitespace.
\<close>

lemma strip_decomp:
  "\<exists>a b. s = a @ strip s @ b \<and> (\<forall>c\<in>set a. isspace c) \<and> (\<forall>c\<in>set b. isspace c)"
proof -
  let ?a = "takeWhile isspace s"
  let ?t = "dropWhile isspace s"
  let ?b = "rev (takeWhile isspace (rev ?t))"
  have "strip s @ ?b = rev (takeWhile isspace (rev ?t) @ dropWhile isspace (rev ?t))"
    unfolding strip_def by (simp only: rev_append)
  also have "\<dots> = rev (rev ?t)"
    by (simp only: takeWhile_dropWhile_id)
  finally have t: "?t = strip s @ ?b"
    by (simp only: rev_rev_ident)
  have "s = ?a @ ?t" by simp
  with t have "s = ?a @ strip s @ ?b" by simp
  moreover have "\<forall>c\<in>set ?a. isspace c" by (auto dest: set_takeWhileD)
  moreover have "\<forall>c\<in>set ?b. isspace c" by (auto dest: set_takeWhileD)
  ultimately show ?thesis by blast
qed

lemma strip_prefix: "\<exists>n. strip s = take n (dropWhile isspace s)"
proof -
  let ?t = "dropWhile isspace s"
  have "dropWhile isspace (rev ?t) = drop (length (takeWhile isspace (rev ?t))) (rev ?t)"
    by (rule dropWhile_eq_drop)
  then have "strip s = take (length ?t - length (takeWhile isspace (rev ?t))) ?t"
    by (simp add: strip_def drop_rev)
  then show ?thesis by blast
qed

lemma strip_hd: "strip s \<noteq> [] \<Longrightarrow> \<not> isspace (hd (strip s))"
proof -
  assume ne: "strip s \<noteq> []"
  obtain n where n: "strip s = take n (dropWhile isspace s)"
    using strip_prefix by blast
  with ne have "dropWhile isspace s \<noteq> []" "n \<noteq> 0" by auto
  then have "hd (strip s) = hd (dropWhile isspace s)"
    unfolding n by (cases "dropWhile isspace s"; cases n) simp_all
  moreover have "\<not> isspace (hd (dropWhile isspace s))"
    using \<open>dropWhile isspace s \<noteq> []\<close> by (rule hd_dropWhile)
  ultimately show ?thesis by simp
qed

lemma strip_last: "strip s \<noteq> [] \<Longrightarrow> \<not> isspace (last (strip s))"
proof -
  assume ne: "strip s \<noteq> []"
  let ?u = "dropWhile isspace (rev (dropWhile isspace s))"
  from ne have u: "?u \<noteq> []" by (simp add: strip_def)
  have "last (strip s) = hd ?u"
    using u by (simp add: strip_def last_rev)
  moreover have "\<not> isspace (hd ?u)" using u by (rule hd_dropWhile)
  ultimately show ?thesis by simp
qed

text \<open>The two cases of lines 129 and 130.\<close>

lemma unquote_quoted:
  "strip raw = CHR 0x22 # inner @ [CHR 0x22] \<Longrightarrow> unquote raw = strip inner"
  by (simp add: unquote_def Let_def butlast_append)

lemma unquote_other:
  "\<not> (strip raw \<noteq> [] \<and> hd (strip raw) = CHR 0x22 \<and> last (strip raw) = CHR 0x22) \<Longrightarrow>
     unquote raw = strip raw"
  by (auto simp: unquote_def Let_def)

text \<open>
  A message returned by \<open>get_commit_message\<close> is the post-processed answer of one of
  the attempts; when the first attempt answers, it is that answer.
\<close>

lemma get_commit_message_first_answer:
  assumes "length diffs < 4 * 4096"
    and "send_with_retries E (llm_calls s) (GPT35_name E) (commit_prompt E diffs context)
           = Inr (Some raw)"
    and "raw \<noteq> []"
  shows "fst (get_commit_message E diffs context s) = Inr (Some (unquote raw))"
  using assms by (simp add: get_commit_message_def Let_def)

lemma try_models_answer:
  "fst (try_models E m models s) = Inr (Some raw) \<Longrightarrow>
     \<exists>calls. send_with_retries E calls (GPT35_name E) m = Inr (Some raw)"
proof (induction models arbitrary: s)
  case Nil
  then show ?case by simp
next
  case (Cons model models)
  show ?case
  proof (cases "send_with_retries E (llm_calls s) (GPT35_name E) m")
    case (Inr c)
    with Cons.prems have "c = Some raw" by (simp add: Let_def)
    with Inr show ?thesis by blast
  next
    case (Inl e)
    with Cons.prems have
      "fst (try_models E m models (s\<lparr>llm_calls := llm_calls s @ [(GPT35_name E, m)]\<rparr>)) = Inr (Some raw)"
      by (cases "e = AttributeError \<or> e = InvalidRequestError") (auto simp: Let_def)
    then show ?thesis by (rule Cons.IH)
  qed
qed

lemma get_commit_message_Some:
  assumes "fst (get_commit_message E diffs context s) = Inr (Some r)"
  shows "\<exists>calls raw. send_with_retries E calls (GPT35_name E) (commit_prompt E diffs context)
                        = Inr (Some raw) \<and> raw \<noteq> [] \<and> r = unquote raw"
proof -
  let ?p = "commit_prompt E diffs context"
  obtain g s' where t: "try_models E ?p [GPT35_name E, GPT35_16k_name E] s = (g, s')"
    by (cases "try_models E ?p [GPT35_name E, GPT35_16k_name E] s")
  have small: "\<not> 4 * 1024 * 4 \<le> length diffs"
    using assms by (auto simp: get_commit_message_def)
  from assms small obtain raw where raw: "g = Inr (Some raw)" "raw \<noteq> []" "r = unquote raw"
    by (cases g; cases "projr g")
       (auto simp: get_commit_message_def t simp del: try_models.simps split: if_splits)
  from raw(1) t have "fst (try_models E ?p [GPT35_name E, GPT35_16k_name E] s) = Inr (Some raw)"
    by simp
  from try_models_answer [OF this] raw(2,3) show ?thesis by blast
qed

text \<open>
  Claim C7. Every message that \<open>get_commit_message\<close> returns is \<open>unquote\<close> of a
  non-empty answer of the service, and \<open>unquote\<close>
  \<^item> trims the whitespace at both ends (\<open>strip\<close>);
  \<^item> when the trimmed text is a double quote, some text \<open>inner\<close> and a double quote,
    returns \<open>inner\<close>, trimmed again: one pair of quotes is removed, and quotes inside
    \<open>inner\<close>, also at its ends, stay;
  \<^item> when the trimmed text does not both start and end with a double quote, returns
    the trimmed text unchanged.
  The quote character is the double quote \<open>"\<close> (\<open>CHR 0x22\<close>).
\<close>

theorem commit_message_postprocessing:
  "(\<forall>r. fst (get_commit_message E diffs context s) = Inr (Some r) \<longrightarrow>
      (\<exists>calls raw'. send_with_retries E calls (GPT35_name E) (commit_prompt E diffs context)
                       = Inr (Some raw') \<and> raw' \<noteq> [] \<and> r = unquote raw'))
   \<and> (\<exists>a b. raw = a @ strip raw @ b \<and> (\<forall>c\<in>set a. isspace c) \<and> (\<forall>c\<in>set b. isspace c))
   \<and> (strip raw = [] \<or> (\<not> isspace (hd (strip raw)) \<and> \<not> isspace (last (strip raw))))
   \<and> (\<forall>inner. strip raw = CHR 0x22 # inner @ [CHR 0x22] \<longrightarrow> unquote raw = strip inner)
   \<and> (\<not> (strip raw \<noteq> [] \<and> hd (strip raw) = CHR 0x22 \<and> last (strip raw) = CHR 0x22) \<longrightarrow>
        unquote raw = strip raw)"
  using get_commit_message_Some [of E diffs "context" s] strip_decomp [of raw]
    strip_hd [of raw] strip_last [of raw] unquote_quoted [of raw] unquote_other [of raw]
  by blast

theorem commit_message_postprocessing_witness:
  "strip '' \"\"Fix the parser\"\" \<newline>'' = CHR 0x22 # ''\"Fix the parser\"'' @ [CHR 0x22]
   \<and> unquote '' \"\"Fix the parser\"\" \<newline>'' = ''\"Fix the parser\"''
   \<and> \<not> (strip '' Say \"hi\" twice '' \<noteq> [] \<and> hd (strip '' Say \"hi\" twice '') = CHR 0x22
          \<and> last (strip '' Say \"hi\" twice '') = CHR 0x22)
   \<and> unquote '' Say \"hi\" twice '' = ''Say \"hi\" twice''
   \<and> fst (get_commit_message
            (example_env\<lparr>send_with_retries := (\<lambda>calls model messages. Inr (Some '' \"Print one\" ''))\<rparr>)
            ''+print(1)'' None (example_state True)) = Inr (Some ''Print one'')
   \<and> (\<exists>calls raw'.
         send_with_retries
           (example_env\<lparr>send_with_retries := (\<lambda>calls model messages. Inr (Some '' \"Print one\" ''))\<rparr>)
           calls
           (GPT35_name (example_env\<lparr>send_with_retries := (\<lambda>calls model messages. Inr (Some '' \"Print one\" ''))\<rparr>))
           (commit_prompt (example_env\<lparr>send_with_retries := (\<lambda>calls model messages. Inr (Some '' \"Print one\" ''))\<rparr>)
              ''+print(1)'' None)
           = Inr (Some raw') \<and> raw' \<noteq> [] \<and> ''Print one'' = unquote raw')"
proof -
  let ?E = "example_env\<lparr>send_with_retries := (\<lambda>calls model messages. Inr (Some '' \"Print one\" ''))\<rparr>"
  have g: "fst (get_commit_message ?E ''+print(1)'' None (example_state True)) = Inr (Some ''Print one'')"
    by (simp add: get_commit_message_def example_env_def example_state_def Let_def
                  unquote_def strip_def isspace_def)
  note c = commit_message_postprocessing
    [of ?E "''+print(1)''" None "example_state True" "[]",
     THEN conjunct1, THEN spec, THEN mp, OF g]
  have q: "strip '' \"\"Fix the parser\"\" \<newline>'' = CHR 0x22 # ''\"Fix the parser\"'' @ [CHR 0x22]"
    by (simp add: strip_def isspace_def)
  have n: "\<not> (strip '' Say \"hi\" twice '' \<noteq> [] \<and> hd (strip '' Say \"hi\" twice '') = CHR 0x22
          \<and> last (strip '' Say \"hi\" twice '') = CHR 0x22)"
    by (simp add: strip_def isspace_def)
  note a = commit_message_postprocessing
    [of example_env "[]" None "example_state True" "'' \"\"Fix the parser\"\" \<newline>''",
     THEN conjunct2, THEN conjunct2, THEN conjunct2, THEN conjunct1, THEN spec, THEN mp, OF q]
  note b = commit_message_postprocessing
    [of example_env "[]" None "example_state True" "'' Say \"hi\" twice ''",
     THEN conjunct2, THEN conjunct2, THEN conjunct2, THEN conjunct2, THEN mp, OF n]
  have a': "unquote '' \"\"Fix the parser\"\" \<newline>'' = ''\"Fix the parser\"''"
    unfolding a by (simp add: strip_def isspace_def)
  have b': "unquote '' Say \"hi\" twice '' = ''Say \"hi\" twice''"
    unfolding b by (simp add: strip_def isspace_def)
  from q a' n b' g c show ?thesis by (intro conjI)
qed

subsection \<open>Tracked files\<close>

lemma os_path_nth:
  "i < length p \<Longrightarrow> os_path E p ! i = (if p ! i = CHR ''/'' then os_sep E else p ! i)"
  by (simp add: os_path_def)

lemma os_path_posix: "os_sep E = CHR ''/'' \<Longrightarrow> os_path E p = p"
  by (simp add: os_path_def map_idI)

lemma get_tracked_files_head:
  "head_commit E r = Some c \<Longrightarrow>
     get_tracked_files E (Some r) = File_set {os_path E p | p. (''blob'', p) \<in> set (tree_traverse c)}"
  by (auto simp: get_tracked_files_def Let_def image_iff)

text \<open>
  Claim C8. On a repository whose head has no commit (\<open>repo.head.commit\<close> raises
  \<open>ValueError\<close>), \<open>get_tracked_files\<close> returns the empty set. Otherwise it returns the
  set of the paths of the entries of type \<open>blob\<close> in the traversal of the head commit's
  tree, each converted by \<open>os_path\<close>: every slash becomes the separator of the host and
  every other character stays, so on a host whose separator is the slash the paths are
  unchanged.
\<close>

theorem get_tracked_files_spec:
  "(head_commit E r = None \<longrightarrow> get_tracked_files E (Some r) = File_set {})
   \<and> (\<forall>c. head_commit E r = Some c \<longrightarrow>
        get_tracked_files E (Some r) =
          File_set {os_path E p | p. (''blob'', p) \<in> set (tree_traverse c)})
   \<and> length (os_path E p) = length p
   \<and> (\<forall>i<length p. os_path E p ! i = (if p ! i = CHR ''/'' then os_sep E else p ! i))
   \<and> (os_sep E = CHR ''/'' \<longrightarrow> os_path E p = p)"
proof -
  have a: "head_commit E r = None \<longrightarrow> get_tracked_files E (Some r) = File_set {}"
    by (simp add: get_tracked_files_def)
  have b: "length (os_path E p) = length p"
    by (simp add: os_path_def)
  from a b get_tracked_files_head [of E r] os_path_nth [of _ p E] os_path_posix [of E p]
  show ?thesis by blast
qed

theorem get_tracked_files_spec_witness:
  "head_commit example_env \<lparr>dir = ''/w'', dirty = False, history = []\<rparr> = None
   \<and> get_tracked_files example_env (Some \<lparr>dir = ''/w'', dirty = False, history = []\<rparr>) = File_set {}
   \<and> head_commit example_env \<lparr>dir = ''/w'', dirty = False, history = [''first'']\<rparr> = Some example_head
   \<and> get_tracked_files example_env (Some \<lparr>dir = ''/w'', dirty = False, history = [''first'']\<rparr>)
       = File_set {''a/b.txt'', ''c.txt''}
   \<and> get_tracked_files (example_env\<lparr>os_sep := CHR 0x5C\<rparr>)
        (Some \<lparr>dir = ''/w'', dirty = False, history = [''first'']\<rparr>)
       = File_set {[CHR ''a'', CHR 0x5C, CHR ''b'', CHR ''.'', CHR ''t'', CHR ''x'', CHR ''t''], ''c.txt''}"
proof -
  have none: "head_commit example_env \<lparr>dir = ''/w'', dirty = False, history = []\<rparr> = None"
    by (simp add: example_env_def)
  have some: "head_commit example_env \<lparr>dir = ''/w'', dirty = False, history = [''first'']\<rparr>
                = Some example_head"
    by (simp add: example_env_def)
  have some': "head_commit (example_env\<lparr>os_sep := CHR 0x5C\<rparr>)
                 \<lparr>dir = ''/w'', dirty = False, history = [''first'']\<rparr> = Some example_head"
    by (simp add: example_env_def)
  have blobs: "{f p | p. (''blob'', p) \<in> set (tree_traverse example_head)} = {f ''a/b.txt'', f ''c.txt''}"
    for f :: "string \<Rightarrow> string"
    by (auto simp: example_head_def)
  note a = get_tracked_files_spec
    [of example_env "\<lparr>dir = ''/w'', dirty = False, history = []\<rparr>" "[]",
     THEN conjunct1, THEN mp, OF none]
  note b = get_tracked_files_spec
    [of example_env "\<lparr>dir = ''/w'', dirty = False, history = [''first'']\<rparr>" "[]",
     THEN conjunct2, THEN conjunct1, THEN spec, THEN mp, OF some]
  note c = get_tracked_files_spec
    [of "example_env\<lparr>os_sep := CHR 0x5C\<rparr>" "\<lparr>dir = ''/w'', dirty = False, history = [''first'']\<rparr>" "[]",
     THEN conjunct2, THEN conjunct1, THEN spec, THEN mp, OF some']
  have b': "get_tracked_files example_env (Some \<lparr>dir = ''/w'', dirty = False, history = [''first'']\<rparr>)
       = File_set {''a/b.txt'', ''c.txt''}"
    unfolding b blobs by (simp add: os_path_def example_env_def)
  have c': "get_tracked_files (example_env\<lparr>os_sep := CHR 0x5C\<rparr>)
        (Some \<lparr>dir = ''/w'', dirty = False, history = [''first'']\<rparr>)
       = File_set {[CHR ''a'', CHR 0x5C, CHR ''b'', CHR ''.'', CHR ''t'', CHR ''x'', CHR ''t''], ''c.txt''}"
    unfolding c blobs by (simp add: os_path_def example_env_def)
  from none a some b' c' show ?thesis by (intro conjI)
qed

end
